theory Spec2Isabelle
  imports Main
begin

section \<open>The flight-plan manager of FlightPlanManager.ts\<close>

text \<open>
  A shallow embedding of class \<open>FlightPlanManager\<close>
  (src/systems/fmgc/src/flightplanning/new/FlightPlanManager.ts): the slot table
  \<open>plans\<close>, the flag \<open>ignoreSync\<close>, the mutation methods, \<open>sendEvent\<close>, the
  seven subscription handlers the constructor registers and the timer it starts.

  Every method takes the manager's state and returns it updated. A JavaScript
  \<open>throw\<close> does not undo the assignments made before it, so a method that throws
  returns the error together with the state as it is at the moment of the throw.
\<close>

subsection \<open>JavaScript arrays with holes\<close>

text \<open>
  \<open>plans\<close> is a JavaScript array of \<open>FlightPlan\<close> whose elements may be
  \<open>undefined\<close>: a list of options. Reading past the end yields \<open>undefined\<close>;
  writing past the end extends the array, the new positions in between being holes.
\<close>

definition array_get :: "'a option list \<Rightarrow> nat \<Rightarrow> 'a option" where
  "array_get xs i = (if i < length xs then xs ! i else None)"

definition array_set :: "'a option list \<Rightarrow> nat \<Rightarrow> 'a option \<Rightarrow> 'a option list" where
  "array_set xs i v =
     (if i < length xs then xs[i := v]
      else xs @ replicate (i - length xs) None @ [v])"

text \<open>
  An object with integer keys (\<open>Record<number, SerializedFlightPlan>\<close>):
  \<open>Object.entries\<close> lists integer keys in ascending order, and assigning to a key
  that is present replaces its value.
\<close>

fun record_set :: "nat \<Rightarrow> 'v \<Rightarrow> (nat \<times> 'v) list \<Rightarrow> (nat \<times> 'v) list" where
  "record_set k v [] = [(k, v)]"
| "record_set k v ((k', v') # r) =
     (if k < k' then (k, v) # (k', v') # r
      else if k = k' then (k, v) # r
      else (k', v') # record_set k v r)"

subsection \<open>The FlightPlan collaborator\<close>

text \<open>
  Modelled from the spec: class \<open>FlightPlan\<close> (plans/FlightPlan.ts, plans/BaseFlightPlan.ts)
  is imported by the manager and is not among the sources. The spec (sections 3 and 6)
  describes it as a versioned, cloneable, serializable value tagged with the slot index it
  occupies: \<open>clone(newIndex)\<close> gives an independent deep copy tagged with \<open>newIndex\<close>,
  \<open>incrementVersion()\<close> increments the version counter, \<open>serialize()\<close> gives a
  transport-safe snapshot and \<open>deserialize(index, snapshot)\<close> a plan tagged with
  \<open>index\<close>. The content of a plan is opaque to the manager; here it is a list of leg
  identifiers.
\<close>

record flight_plan =
  index :: nat
  version :: nat
  legs :: "string list"

record serialized_flight_plan =
  s_version :: nat
  s_legs :: "string list"

definition FlightPlan_empty :: "nat \<Rightarrow> flight_plan" where
  "FlightPlan_empty i = \<lparr>index = i, version = 0, legs = []\<rparr>"

definition clone :: "flight_plan \<Rightarrow> nat \<Rightarrow> flight_plan" where
  "clone p newIndex = p\<lparr>index := newIndex\<rparr>"

definition incrementVersion :: "flight_plan \<Rightarrow> flight_plan" where
  "incrementVersion p = p\<lparr>version := version p + 1\<rparr>"

definition serialize :: "flight_plan \<Rightarrow> serialized_flight_plan" where
  "serialize p = \<lparr>s_version = version p, s_legs = legs p\<rparr>"

definition fromSerializedFlightPlan :: "nat \<Rightarrow> serialized_flight_plan \<Rightarrow> flight_plan" where
  "fromSerializedFlightPlan i sp = \<lparr>index = i, version = s_version sp, legs = s_legs sp\<rparr>"

subsection \<open>Events, errors and the manager's state\<close>

text \<open>The topics of \<open>FlightPlanSyncEvents\<close> with their payloads.\<close>

datatype sync_event =
    SyncRequest
  | SyncResponse "(nat \<times> serialized_flight_plan) list"
  | Create nat
  | Delete nat
  | DeleteAll
  | Copy nat nat
  | Swap nat nat

text \<open>
  The two errors the manager throws, with the index their message carries:
  \<open>SlotNotFound\<close> is "Tried to access non-existent flight plan at index #i",
  \<open>SlotAlreadyOccupied\<close> is "Tried to create existent flight plan at index #i".
  \<open>TypeError\<close> is what JavaScript raises for a method call on \<open>undefined\<close>.
\<close>

datatype error = SlotNotFound nat | SlotAlreadyOccupied nat | TypeError

text \<open>
  The fields of the class. The transport (\<open>EventBus\<close>, \<open>Publisher\<close>) is an external
  collaborator: \<open>published\<close> is the log of what the manager handed to
  \<open>syncPub.pub\<close>, oldest first, and \<open>timers\<close> holds the callbacks registered with
  \<open>setTimeout\<close> that have not fired yet, each with its delay in milliseconds and
  the event it will send.
\<close>

record manager =
  plans :: "flight_plan option list"
  ignoreSync :: bool
  syncClientID :: nat
  master :: bool
  published :: "sync_event list"
  timers :: "(nat \<times> sync_event) list"

text \<open>
  The outcome of a method: \<open>Inr s\<close> when it returns with state \<open>s\<close>,
  \<open>Inl (e, s)\<close> when it throws \<open>e\<close>, the state being \<open>s\<close> at that moment.
\<close>

type_synonym outcome = "(error \<times> manager) + manager"

fun state_of :: "outcome \<Rightarrow> manager" where
  "state_of (Inl (e, s)) = s"
| "state_of (Inr s) = s"

subsection \<open>The methods\<close>

definition assertFlightPlanExists :: "nat \<Rightarrow> manager \<Rightarrow> error + unit" where
  "assertFlightPlanExists i s =
     (case array_get (plans s) i of
        None \<Rightarrow> Inl (SlotNotFound i)
      | Some p \<Rightarrow> Inr ())"

definition assertFlightPlanDoesntExist :: "nat \<Rightarrow> manager \<Rightarrow> error + unit" where
  "assertFlightPlanDoesntExist i s =
     (case array_get (plans s) i of
        Some p \<Rightarrow> Inl (SlotAlreadyOccupied i)
      | None \<Rightarrow> Inr ())"

definition has :: "nat \<Rightarrow> manager \<Rightarrow> bool" where
  "has i s = (array_get (plans s) i \<noteq> None)"

text \<open>\<open>get\<close> returns \<open>this.plans[index]\<close>, whatever it holds, once the assertion passed.\<close>

definition get :: "nat \<Rightarrow> manager \<Rightarrow> error + flight_plan option" where
  "get i s =
     (case assertFlightPlanExists i s of
        Inl e \<Rightarrow> Inl e
      | Inr u \<Rightarrow> Inr (array_get (plans s) i))"

definition set_plan :: "nat \<Rightarrow> flight_plan option \<Rightarrow> manager \<Rightarrow> manager" where
  "set_plan i flightPlan s = s\<lparr>plans := array_set (plans s) i flightPlan\<rparr>"

subsection \<open>The constructor's handlers\<close>

text \<open>
  The \<open>syncRequest\<close> handler fills \<open>plansRecord\<close> in array order, keyed by each
  plan's own \<open>index\<close> field.
\<close>

fun plansRecord :: "flight_plan option list \<Rightarrow> (nat \<times> serialized_flight_plan) list
    \<Rightarrow> (nat \<times> serialized_flight_plan) list" where
  "plansRecord [] r = r"
| "plansRecord (None # ps) r = plansRecord ps r"
| "plansRecord (Some plan # ps) r = plansRecord ps (record_set (index plan) (serialize plan) r)"

text \<open>The loop of the \<open>syncResponse\<close> handler over \<open>Object.entries(event.plans)\<close>.\<close>

fun install :: "(nat \<times> serialized_flight_plan) list \<Rightarrow> manager \<Rightarrow> manager" where
  "install [] s = s"
| "install ((intIndex, serialisedPlan) # r) s =
     install r (set_plan intIndex (Some (fromSerializedFlightPlan intIndex serialisedPlan)) s)"

subsection \<open>Publishing, the mutation methods and the handlers\<close>

text \<open>
  Modelled from the spec: the transport (\<open>EventBus\<close> and \<open>Publisher\<close> of
  @microsoft/msfs-sdk) is imported by the manager and is not among the sources. Sections 4.2
  and 6 of the spec say that a unit's own publication is delivered back to its own
  subscription handlers, synchronously within the publish call. So \<open>pub\<close> records
  the event in \<open>published\<close> and runs this unit's handler of the topic before it
  returns. \<open>pub\<close> is called by \<open>sendEvent\<close> only, with the flag raised, and a
  handler that finds the flag raised does not throw (lemma \<open>handle_flag_raised\<close>), so
  keeping the state of the handler's outcome loses nothing.

  \<open>sendEvent\<close>: raise the flag, publish, lower the flag.

  \<open>copy\<close>: \<open>this.get(to).incrementVersion()\<close> mutates the object that
  \<open>set\<close> has just stored in slot \<open>to\<close>; no other slot refers to that object, so
  the mutation is an update of slot \<open>to\<close>. The \<open>console.log\<close> has no effect on
  the state.

  The handlers are those the constructor subscribes to each topic, in the source's order.
  The methods call \<open>sendEvent\<close>, \<open>sendEvent\<close> calls \<open>pub\<close>, \<open>pub\<close> runs a
  handler and the handlers call the methods: one recursive definition. It terminates because
  a handler entered with the flag raised calls nothing that publishes.
\<close>

function pub :: "sync_event \<Rightarrow> manager \<Rightarrow> manager"
  and sendEvent :: "sync_event \<Rightarrow> manager \<Rightarrow> manager"
  and create :: "nat \<Rightarrow> bool \<Rightarrow> manager \<Rightarrow> outcome"
  and delete :: "nat \<Rightarrow> bool \<Rightarrow> manager \<Rightarrow> outcome"
  and deleteAll :: "bool \<Rightarrow> manager \<Rightarrow> outcome"
  and copy :: "nat \<Rightarrow> nat \<Rightarrow> bool \<Rightarrow> manager \<Rightarrow> outcome"
  and swap :: "nat \<Rightarrow> nat \<Rightarrow> bool \<Rightarrow> manager \<Rightarrow> outcome"
  and handle :: "sync_event \<Rightarrow> manager \<Rightarrow> outcome"
where
  "pub ev s = state_of (handle ev (s\<lparr>published := published s @ [ev]\<rparr>))"
| "sendEvent ev s =
     (let s1 = s\<lparr>ignoreSync := True\<rparr>;
          s2 = pub ev s1
      in s2\<lparr>ignoreSync := False\<rparr>)"
| "create i notify s =
     (case assertFlightPlanDoesntExist i s of
        Inl e \<Rightarrow> Inl (e, s)
      | Inr u \<Rightarrow>
          (let s1 = s\<lparr>plans := array_set (plans s) i (Some (FlightPlan_empty i))\<rparr>
           in Inr (if notify then sendEvent (Create i) s1 else s1)))"
| "delete i notify s =
     (case assertFlightPlanExists i s of
        Inl e \<Rightarrow> Inl (e, s)
      | Inr u \<Rightarrow>
          (let s1 = s\<lparr>plans := array_set (plans s) i None\<rparr>
           in Inr (if notify then sendEvent (Delete i) s1 else s1)))"
| "deleteAll notify s =
     (let s1 = s\<lparr>plans := []\<rparr>
      in Inr (if notify then sendEvent DeleteAll s1 else s1))"
| "copy fromIndex toIndex notify s =
     (case assertFlightPlanExists fromIndex s of
        Inl e \<Rightarrow> Inl (e, s)
      | Inr u \<Rightarrow>
     (case get fromIndex s of
        Inl e \<Rightarrow> Inl (e, s)
      | Inr None \<Rightarrow> Inl (TypeError, s)
      | Inr (Some p) \<Rightarrow>
          (let newPlan = clone p toIndex;
               s1 = set_plan toIndex (Some newPlan) s
           in (case get toIndex s1 of
                 Inl e \<Rightarrow> Inl (e, s1)
               | Inr None \<Rightarrow> Inl (TypeError, s1)
               | Inr (Some q) \<Rightarrow>
                   (let s2 = s1\<lparr>plans := array_set (plans s1) toIndex (Some (incrementVersion q))\<rparr>
                    in Inr (if notify then sendEvent (Copy fromIndex toIndex) s2 else s2))))))"
| "swap a b notify s =
     (case assertFlightPlanExists a s of
        Inl e \<Rightarrow> Inl (e, s)
      | Inr u \<Rightarrow>
     (case assertFlightPlanExists b s of
        Inl e \<Rightarrow> Inl (e, s)
      | Inr u \<Rightarrow>
     (case get a s of
        Inl e \<Rightarrow> Inl (e, s)
      | Inr planA \<Rightarrow>
     (case get b s of
        Inl e \<Rightarrow> Inl (e, s)
      | Inr planB \<Rightarrow>
     (case delete a False s of
        Inl x \<Rightarrow> Inl x
      | Inr s1 \<Rightarrow>
     (case delete b False s1 of
        Inl x \<Rightarrow> Inl x
      | Inr s2 \<Rightarrow>
          (let s3 = set_plan a planB s2;
               s4 = set_plan b planA s3
           in Inr (if notify then sendEvent (Swap a b) s4 else s4))))))))"
| "handle SyncRequest s =
     (if \<not> ignoreSync s
      then Inr (sendEvent (SyncResponse (plansRecord (plans s) [])) s)
      else Inr s)"
| "handle (SyncResponse eventPlans) s = Inr (install eventPlans s)"
| "handle (Create planIndex) s =
     (if \<not> ignoreSync s then create planIndex False s else Inr s)"
| "handle (Delete planIndex) s =
     (if \<not> ignoreSync s then delete planIndex False s else Inr s)"
| "handle DeleteAll s =
     (if \<not> ignoreSync s then deleteAll False s else Inr s)"
| "handle (Copy planIndex targetPlanIndex) s =
     (if \<not> ignoreSync s then copy planIndex targetPlanIndex False s else Inr s)"
| "handle (Swap planIndex targetPlanIndex) s =
     (if \<not> ignoreSync s then swap planIndex targetPlanIndex False s else Inr s)"
  by pat_completeness auto

termination
  by (relation "measure (\<lambda>x. case x of
        Inl (Inl (Inl (ev, s))) \<Rightarrow> if ignoreSync s then 1 else 6
      | Inl (Inl (Inr (ev, s))) \<Rightarrow> 2
      | Inl (Inr (Inl (i, n, s))) \<Rightarrow> 3
      | Inl (Inr (Inr (i, n, s))) \<Rightarrow> if n then 3 else 0
      | Inr (Inl (Inl (n, s))) \<Rightarrow> 3
      | Inr (Inl (Inr (a, b, n, s))) \<Rightarrow> 3
      | Inr (Inr (Inl (a, b, n, s))) \<Rightarrow> 4
      | Inr (Inr (Inr (ev, s))) \<Rightarrow> if ignoreSync s then 0 else 5)")
    simp_all

declare pub.simps [simp del] sendEvent.simps [simp del] create.simps [simp del]
  delete.simps [simp del] deleteAll.simps [simp del] copy.simps [simp del]
  swap.simps [simp del]

subsection \<open>The constructor and its timer\<close>

text \<open>
  The constructor: an empty table, the flag lowered, and for a unit that is not master
  one \<open>setTimeout\<close> of 5000 ms whose callback sends \<open>syncRequest\<close>.
\<close>

definition FlightPlanManager :: "nat \<Rightarrow> bool \<Rightarrow> manager" where
  "FlightPlanManager clientID isMaster =
     \<lparr>plans = [], ignoreSync = False, syncClientID = clientID, master = isMaster,
      published = [],
      timers = (if \<not> isMaster then [(5000, SyncRequest)] else [])\<rparr>"

text \<open>A \<open>setTimeout\<close> callback fires once and is gone.\<close>

definition timerFires :: "manager \<Rightarrow> manager" where
  "timerFires s =
     (case timers s of
        [] \<Rightarrow> s
      | (delay, ev) # ts \<Rightarrow> sendEvent ev (s\<lparr>timers := ts\<rparr>))"

subsection \<open>Executions of one unit\<close>

text \<open>
  What can happen to a unit after construction: a caller invokes a mutation method, the
  transport delivers an event to the handler of its topic, or the timer fires. A step
  that throws leaves the state as it is at the throw.
\<close>

datatype action =
    CallCreate nat bool
  | CallDelete nat bool
  | CallDeleteAll bool
  | CallCopy nat nat bool
  | CallSwap nat nat bool
  | Deliver sync_event
  | TimerFires

fun step :: "action \<Rightarrow> manager \<Rightarrow> manager" where
  "step (CallCreate i n) s = state_of (create i n s)"
| "step (CallDelete i n) s = state_of (delete i n s)"
| "step (CallDeleteAll n) s = state_of (deleteAll n s)"
| "step (CallCopy a b n) s = state_of (copy a b n s)"
| "step (CallSwap a b n) s = state_of (swap a b n s)"
| "step (Deliver ev) s = state_of (handle ev s)"
| "step TimerFires s = timerFires s"

fun run :: "action list \<Rightarrow> manager \<Rightarrow> manager" where
  "run [] s = s"
| "run (a # as) s = run as (step a s)"

subsection \<open>Observations used in the properties\<close>

text \<open>
  How many \<open>syncRequest\<close> events the unit has published, and how many pending timers
  will publish one.
\<close>

definition requests_sent :: "manager \<Rightarrow> nat" where
  "requests_sent s = count_list (published s) SyncRequest"

definition requests_pending :: "manager \<Rightarrow> nat" where
  "requests_pending s = count_list (map snd (timers s)) SyncRequest"

text \<open>
  The tagging of the table: the plan in slot \<open>i\<close> carries \<open>index = i\<close>. The
  \<open>syncRequest\<close> handler relies on it when it keys the snapshot by \<open>plan.index\<close>.
\<close>

definition slots_tagged :: "manager \<Rightarrow> bool" where
  "slots_tagged s =
     list_all (\<lambda>(i, x). case x of None \<Rightarrow> True | Some p \<Rightarrow> index p = i)
       (enumerate 0 (plans s))"

text \<open>
  Three concrete units: a master after \<open>create(0)\<close>; the same after
  \<open>copy(0, 1)\<close> as well; and a unit that is not master, observed while its timer's
  callback is inside \<open>syncPub.pub\<close>: the timer is gone, the flag is raised and the
  request is on the transport.
\<close>

definition onePlan :: manager where
  "onePlan = run [CallCreate 0 True] (FlightPlanManager 1 True)"

definition twoPlans :: manager where
  "twoPlans = run [CallCreate 0 True, CallCopy 0 1 True] (FlightPlanManager 1 True)"

definition awaitingSnapshot :: manager where
  "awaitingSnapshot =
     pub SyncRequest ((FlightPlanManager 2 False)\<lparr>timers := [], ignoreSync := True\<rparr>)"

section \<open>Properties\<close>

subsection \<open>Array reads and writes\<close>

lemma array_get_array_set:
  "array_get (array_set xs i v) j = (if j = i then v else array_get xs j)"
  by (auto simp: array_get_def array_set_def nth_append)

lemma array_set_twice: "array_set (array_set xs i v) i w = array_set xs i w"
  by (auto simp: array_set_def list_update_append)

lemma array_set_in_range: "i < length xs \<Longrightarrow> array_set xs i v = xs[i := v]"
  by (simp add: array_set_def)

lemma array_get_Some_length: "array_get xs i = Some p \<Longrightarrow> i < length xs"
  by (simp add: array_get_def split: if_splits)

subsection \<open>Each method, by the state of the slots it reads\<close>

lemma assert_exists_simps:
  "array_get (plans s) i = None \<Longrightarrow> assertFlightPlanExists i s = Inl (SlotNotFound i)"
  "array_get (plans s) i = Some p \<Longrightarrow> assertFlightPlanExists i s = Inr ()"
  by (simp_all add: assertFlightPlanExists_def)

lemma assert_doesnt_exist_simps:
  "array_get (plans s) i = None \<Longrightarrow> assertFlightPlanDoesntExist i s = Inr ()"
  "array_get (plans s) i = Some p \<Longrightarrow> assertFlightPlanDoesntExist i s = Inl (SlotAlreadyOccupied i)"
  by (simp_all add: assertFlightPlanDoesntExist_def)

lemma get_simps:
  "array_get (plans s) i = None \<Longrightarrow> get i s = Inl (SlotNotFound i)"
  "array_get (plans s) i = Some p \<Longrightarrow> get i s = Inr (Some p)"
  by (simp_all add: get_def assertFlightPlanExists_def)

lemma install_fields:
  "timers (install r s) = timers s \<and> published (install r s) = published s \<and>
   ignoreSync (install r s) = ignoreSync s \<and> master (install r s) = master s \<and>
   syncClientID (install r s) = syncClientID s"
  by (induction r s rule: install.induct) (simp_all add: set_plan_def)

lemma handle_flag_raised:
  "ignoreSync s \<Longrightarrow>
   handle ev s = Inr (case ev of SyncResponse r \<Rightarrow> install r s | _ \<Rightarrow> s)"
  by (cases ev) simp_all

lemma pub_flag_raised:
  "ignoreSync s \<Longrightarrow>
   pub ev s =
     (case ev of
        SyncResponse r \<Rightarrow> install r (s\<lparr>published := published s @ [ev]\<rparr>)
      | _ \<Rightarrow> s\<lparr>published := published s @ [ev]\<rparr>)"
  by (cases ev) (simp_all add: pub.simps)

lemma sendEvent_eq:
  "sendEvent ev s =
     (case ev of
        SyncResponse r \<Rightarrow>
          (install r (s\<lparr>ignoreSync := True, published := published s @ [ev]\<rparr>))
            \<lparr>ignoreSync := False\<rparr>
      | _ \<Rightarrow> s\<lparr>ignoreSync := False, published := published s @ [ev]\<rparr>)"
  by (cases ev) (simp_all add: sendEvent.simps pub_flag_raised)

lemma sendEvent_fields:
  "ignoreSync (sendEvent ev s) = False"
  "master (sendEvent ev s) = master s"
  "timers (sendEvent ev s) = timers s"
  "syncClientID (sendEvent ev s) = syncClientID s"
  "published (sendEvent ev s) = published s @ [ev]"
  "(\<forall>r. ev \<noteq> SyncResponse r) \<Longrightarrow> plans (sendEvent ev s) = plans s"
  by (simp_all add: sendEvent_eq install_fields split: sync_event.splits)

lemma create_empty:
  "array_get (plans s) i = None \<Longrightarrow>
   create i n s = Inr (if n then sendEvent (Create i) (s\<lparr>plans := array_set (plans s) i (Some (FlightPlan_empty i))\<rparr>)
                       else s\<lparr>plans := array_set (plans s) i (Some (FlightPlan_empty i))\<rparr>)"
  by (simp add: create.simps assert_doesnt_exist_simps)

lemma create_occupied:
  "array_get (plans s) i = Some p \<Longrightarrow> create i n s = Inl (SlotAlreadyOccupied i, s)"
  by (simp add: create.simps assert_doesnt_exist_simps)

lemma delete_empty:
  "array_get (plans s) i = None \<Longrightarrow> delete i n s = Inl (SlotNotFound i, s)"
  by (simp add: delete.simps assert_exists_simps)

lemma delete_occupied:
  "array_get (plans s) i = Some p \<Longrightarrow>
   delete i n s = Inr (if n then sendEvent (Delete i) (s\<lparr>plans := array_set (plans s) i None\<rparr>)
                       else s\<lparr>plans := array_set (plans s) i None\<rparr>)"
  by (simp add: delete.simps assert_exists_simps)

lemma copy_empty:
  "array_get (plans s) a = None \<Longrightarrow> copy a b n s = Inl (SlotNotFound a, s)"
  by (simp add: copy.simps assert_exists_simps)

lemma copy_occupied:
  "array_get (plans s) a = Some p \<Longrightarrow>
   copy a b n s =
     Inr (if n then sendEvent (Copy a b) (s\<lparr>plans := array_set (plans s) b (Some (incrementVersion (clone p b)))\<rparr>)
          else s\<lparr>plans := array_set (plans s) b (Some (incrementVersion (clone p b)))\<rparr>)"
  by (simp add: copy.simps assert_exists_simps get_simps Let_def set_plan_def array_get_array_set
      array_set_twice)

lemma swap_first_empty:
  "array_get (plans s) a = None \<Longrightarrow> swap a b n s = Inl (SlotNotFound a, s)"
  by (simp add: swap.simps assert_exists_simps)

lemma swap_second_empty:
  "array_get (plans s) a = Some p \<Longrightarrow> array_get (plans s) b = None \<Longrightarrow> swap a b n s = Inl (SlotNotFound b, s)"
  by (simp add: swap.simps assert_exists_simps)

lemma swap_same:
  "array_get (plans s) a = Some p \<Longrightarrow>
   swap a a n s = Inl (SlotNotFound a, s\<lparr>plans := array_set (plans s) a None\<rparr>)"
  by (simp add: swap.simps assert_exists_simps get_simps delete_occupied delete_empty array_get_array_set)

lemma swap_both:
  "array_get (plans s) a = Some p \<Longrightarrow> array_get (plans s) b = Some q \<Longrightarrow> a \<noteq> b \<Longrightarrow>
   swap a b n s =
     Inr (if n then sendEvent (Swap a b) (s\<lparr>plans := array_set (array_set (array_set (array_set (plans s) a None) b None) a (Some q)) b (Some p)\<rparr>)
          else s\<lparr>plans := array_set (array_set (array_set (array_set (plans s) a None) b None) a (Some q)) b (Some p)\<rparr>)"
  by (simp add: swap.simps assert_exists_simps get_simps delete_occupied array_get_array_set set_plan_def Let_def)

lemma swap_cases:
  obtains (first_empty) "array_get (plans s) a = None"
  | (second_empty) p where "array_get (plans s) a = Some p" "array_get (plans s) b = None"
  | (same) p where "array_get (plans s) a = Some p" "a = b"
  | (both) p q where "array_get (plans s) a = Some p" "array_get (plans s) b = Some q" "a \<noteq> b"
  by (cases "array_get (plans s) a"; cases "array_get (plans s) b"; cases "a = b") auto

subsection \<open>The concrete units\<close>

lemmas eval_defs = FlightPlanManager_def create.simps delete.simps deleteAll.simps copy.simps swap.simps
  get_def has_def set_plan_def assertFlightPlanExists_def assertFlightPlanDoesntExist_def
  array_get_def array_set_def sendEvent.simps pub.simps FlightPlan_empty_def clone_def
  incrementVersion_def serialize_def fromSerializedFlightPlan_def timerFires_def Let_def

lemma onePlan_eq:
  "onePlan = \<lparr>plans = [Some \<lparr>index = 0, version = 0, legs = []\<rparr>], ignoreSync = False,
     syncClientID = 1, master = True, published = [Create 0], timers = []\<rparr>"
  by (simp add: onePlan_def eval_defs)

lemma twoPlans_eq:
  "twoPlans = \<lparr>plans = [Some \<lparr>index = 0, version = 0, legs = []\<rparr>,
       Some \<lparr>index = 1, version = 1, legs = []\<rparr>], ignoreSync = False,
     syncClientID = 1, master = True, published = [Create 0, Copy 0 1], timers = []\<rparr>"
  by (simp add: twoPlans_def eval_defs)

lemma onePlan_slots: "array_get (plans onePlan) 0 = Some (FlightPlan_empty 0)"
  "array_get (plans onePlan) 1 = None" "\<not> ignoreSync onePlan"
  by (simp_all add: onePlan_eq array_get_def FlightPlan_empty_def)

subsection \<open>The mutation methods\<close>

text \<open>
  Claim C6. For every index \<open>i\<close> and either value of \<open>notify\<close>: when
  \<open>create(i)\<close> returns, \<open>has(i)\<close> is true and \<open>get(i)\<close> returns the occupant,
  the fresh empty plan; and when slot \<open>i\<close> is occupied, \<open>create(i)\<close> throws
  \<open>SlotAlreadyOccupied\<close> with the whole state, the table included, as it was.
\<close>

theorem create_then_has_and_get:
  "(create i n s = Inr s' \<longrightarrow> has i s' \<and> get i s' = Inr (Some (FlightPlan_empty i))) \<and>
   (has i s \<longrightarrow> create i n s = Inl (SlotAlreadyOccupied i, s))"
proof (cases "array_get (plans s) i")
  case None
  then show ?thesis
    by (auto simp: create_empty has_def get_simps sendEvent_fields array_get_array_set)
next
  case (Some p)
  then show ?thesis
    by (simp add: create_occupied)
qed

text \<open>
  On a new master unit \<open>create(0)\<close> returns and gives \<open>onePlan\<close>; there a second
  \<open>create(0)\<close> throws.
\<close>

theorem create_then_has_and_get_witness:
  "create 0 True (FlightPlanManager 1 True) = Inr onePlan \<and>
   has 0 onePlan \<and> get 0 onePlan = Inr (Some (FlightPlan_empty 0)) \<and>
   create 0 True onePlan = Inl (SlotAlreadyOccupied 0, onePlan)"
proof -
  have made: "create 0 True (FlightPlanManager 1 True) = Inr onePlan"
    by (simp add: onePlan_eq eval_defs)
  with create_then_has_and_get [of 0 True "FlightPlanManager 1 True" onePlan]
  have after: "has 0 onePlan \<and> get 0 onePlan = Inr (Some (FlightPlan_empty 0))"
    by simp
  with create_then_has_and_get [of 0 True onePlan]
  have "create 0 True onePlan = Inl (SlotAlreadyOccupied 0, onePlan)"
    by simp
  with made after show ?thesis
    by simp
qed

text \<open>
  Claim C10. For every index \<open>i\<close>: when \<open>create(i)\<close> or \<open>delete(i)\<close>
  returns, every slot \<open>j\<close> other than \<open>i\<close> reads as before, occupied by the same plan
  or empty; and with \<open>notify\<close> true, the default, \<open>ignoreSync\<close> is false on return
  (with \<open>notify\<close> false the flag is not touched).
\<close>

theorem create_delete_frame:
  "create i n s = Inr s' \<or> delete i n s = Inr s' \<Longrightarrow>
   (\<forall>j. j \<noteq> i \<longrightarrow> array_get (plans s') j = array_get (plans s) j) \<and>
   ignoreSync s' = (if n then False else ignoreSync s)"
proof (cases "array_get (plans s) i")
  case None
  assume "create i n s = Inr s' \<or> delete i n s = Inr s'"
  with None have "create i n s = Inr s'"
    by (simp add: delete_empty)
  with None show ?thesis
    by (auto simp: create_empty sendEvent_fields array_get_array_set)
next
  case (Some p)
  assume "create i n s = Inr s' \<or> delete i n s = Inr s'"
  with Some have "delete i n s = Inr s'"
    by (simp add: create_occupied)
  with Some show ?thesis
    by (auto simp: delete_occupied sendEvent_fields array_get_array_set)
qed

theorem create_delete_frame_witness:
  "create 0 True (FlightPlanManager 1 True) = Inr onePlan \<and>
   array_get (plans onePlan) 1 = array_get (plans (FlightPlanManager 1 True)) 1 \<and>
   \<not> ignoreSync onePlan \<and>
   delete 0 True onePlan = Inr (state_of (delete 0 True onePlan)) \<and>
   array_get (plans (state_of (delete 0 True onePlan))) 1 = array_get (plans onePlan) 1 \<and>
   \<not> ignoreSync (state_of (delete 0 True onePlan))"
proof -
  have made: "create 0 True (FlightPlanManager 1 True) = Inr onePlan"
    by (simp add: onePlan_eq eval_defs)
  have gone: "delete 0 True onePlan = Inr (state_of (delete 0 True onePlan))"
    by (simp add: onePlan_eq eval_defs)
  from create_delete_frame [of 0 True "FlightPlanManager 1 True" onePlan] made
  have "array_get (plans onePlan) 1 = array_get (plans (FlightPlanManager 1 True)) 1"
    "\<not> ignoreSync onePlan"
    by simp_all
  moreover from create_delete_frame [of 0 True onePlan "state_of (delete 0 True onePlan)"] gone
  have "array_get (plans (state_of (delete 0 True onePlan))) 1 = array_get (plans onePlan) 1"
    "\<not> ignoreSync (state_of (delete 0 True onePlan))"
    by simp_all
  ultimately show ?thesis
    using made gone by simp
qed

text \<open>
  Claim C5, as amended. For every source \<open>a\<close> and target \<open>b\<close>: with slot
  \<open>a\<close> empty, \<open>copy(a, b)\<close> throws \<open>SlotNotFound\<close> and the state is as it was;
  with slot \<open>a\<close> holding \<open>p\<close> it returns, slot \<open>b\<close> then holds the clone of
  \<open>p\<close> tagged \<open>b\<close> with the version incremented and the content of \<open>p\<close>,
  whatever slot \<open>b\<close> held before, and every slot other than \<open>b\<close> reads as before:
  the source keeps its occupant when \<open>a \<noteq> b\<close>.
\<close>

theorem copy_clones_and_retags:
  "(array_get (plans s) a = None \<longrightarrow> copy a b n s = Inl (SlotNotFound a, s)) \<and>
   (array_get (plans s) a = Some p \<longrightarrow>
      (\<exists>s'. copy a b n s = Inr s' \<and>
         array_get (plans s') b = Some (incrementVersion (clone p b)) \<and>
         (\<forall>j. j \<noteq> b \<longrightarrow> array_get (plans s') j = array_get (plans s) j) \<and>
         (a \<noteq> b \<longrightarrow> array_get (plans s') a = Some p)) \<and>
      index (incrementVersion (clone p b)) = b \<and>
      version (incrementVersion (clone p b)) = version p + 1 \<and>
      legs (incrementVersion (clone p b)) = legs p)"
  by (auto simp: copy_empty copy_occupied sendEvent_fields array_get_array_set
      incrementVersion_def clone_def)

theorem copy_clones_and_retags_witness:
  "copy 1 0 True onePlan = Inl (SlotNotFound 1, onePlan) \<and>
   (\<exists>s'. copy 0 1 True onePlan = Inr s' \<and>
      array_get (plans s') 1 = Some \<lparr>index = 1, version = 1, legs = []\<rparr> \<and>
      array_get (plans s') 0 = Some (FlightPlan_empty 0))"
proof -
  have "incrementVersion (clone (FlightPlan_empty 0) 1) = \<lparr>index = 1, version = 1, legs = []\<rparr>"
    by (simp add: eval_defs)
  with copy_clones_and_retags [of onePlan 1 0 True "FlightPlan_empty 0"]
    copy_clones_and_retags [of onePlan 0 1 True "FlightPlan_empty 0"] onePlan_slots
  show ?thesis
    by auto
qed

text \<open>
  Claim C5 as written also says, for every \<open>s\<close> and \<open>t\<close>, that the source occupant
  is left in place. With \<open>s = t\<close> it is not: after \<open>copy(0, 0)\<close> on \<open>onePlan\<close>
  slot 0 holds the clone, version 1, in place of the plan of version 0 that was copied.
\<close>

theorem copy_source_replaced_counterexample:
  "array_get (plans onePlan) 0 = Some \<lparr>index = 0, version = 0, legs = []\<rparr> \<and>
   copy 0 0 True onePlan =
     Inr (onePlan\<lparr>plans := [Some \<lparr>index = 0, version = 1, legs = []\<rparr>],
                  published := [Create 0, Copy 0 0]\<rparr>) \<and>
   array_get (plans (state_of (copy 0 0 True onePlan))) 0
     \<noteq> array_get (plans onePlan) 0"
  by (simp add: onePlan_eq eval_defs)

text \<open>
  Claim C9. For every index \<open>i\<close> whose slot holds \<open>p\<close>: \<open>copy(i, i)\<close>
  returns, and the table is the old one with slot \<open>i\<close> replaced by the clone of \<open>p\<close>,
  tagged \<open>i\<close>, version incremented, content kept; no other slot changes.
\<close>

theorem copy_onto_itself:
  "array_get (plans s) i = Some p \<Longrightarrow>
   (\<exists>s'. copy i i n s = Inr s' \<and>
      plans s' = (plans s)[i := Some (incrementVersion (clone p i))] \<and>
      array_get (plans s') i = Some (incrementVersion (clone p i)) \<and>
      (\<forall>j. j \<noteq> i \<longrightarrow> array_get (plans s') j = array_get (plans s) j)) \<and>
   index (incrementVersion (clone p i)) = i \<and>
   version (incrementVersion (clone p i)) = version p + 1 \<and>
   legs (incrementVersion (clone p i)) = legs p"
proof -
  assume occ: "array_get (plans s) i = Some p"
  let ?q = "incrementVersion (clone p i)"
  from occ have "i < length (plans s)"
    by (rule array_get_Some_length)
  then have upd: "(plans s)[i := Some ?q] = array_set (plans s) i (Some ?q)"
    by (simp add: array_set_in_range)
  from occ have "\<exists>s'. copy i i n s = Inr s' \<and>
      plans s' = (plans s)[i := Some ?q] \<and>
      array_get (plans s') i = Some ?q \<and>
      (\<forall>j. j \<noteq> i \<longrightarrow> array_get (plans s') j = array_get (plans s) j)"
    unfolding upd by (simp add: copy_occupied sendEvent_fields array_get_array_set)
  then show ?thesis
    by (simp add: incrementVersion_def clone_def)
qed

theorem copy_onto_itself_witness:
  "array_get (plans onePlan) 0 = Some (FlightPlan_empty 0) \<and>
   (\<exists>s'. copy 0 0 True onePlan = Inr s' \<and>
      plans s' = [Some \<lparr>index = 0, version = 1, legs = []\<rparr>])"
proof -
  have "(plans onePlan)[0 := Some (incrementVersion (clone (FlightPlan_empty 0) 0))] =
      [Some \<lparr>index = 0, version = 1, legs = []\<rparr>]"
    by (simp add: onePlan_eq eval_defs)
  with copy_onto_itself [of onePlan 0 "FlightPlan_empty 0" True] onePlan_slots(1)
  show ?thesis
    by auto
qed

text \<open>
  Claim C4. When slot \<open>a\<close> or slot \<open>b\<close> is empty, \<open>swap(a, b)\<close> throws
  \<open>SlotNotFound\<close>, for \<open>a\<close> when slot \<open>a\<close> is empty and for \<open>b\<close>
  otherwise, and the state it leaves is the state it was called in: no slot is mutated and
  nothing is published. This holds for distinct indices, as claimed, and for equal ones.
\<close>

theorem swap_with_empty_slot_fails_unchanged:
  "\<not> has a s \<or> \<not> has b s \<Longrightarrow>
   swap a b n s = Inl (SlotNotFound (if has a s then b else a), s)"
  by (auto simp: has_def swap_first_empty swap_second_empty)

theorem swap_with_empty_slot_fails_unchanged_witness:
  "has 0 onePlan \<and> \<not> has 1 onePlan \<and>
   swap 0 1 True onePlan = Inl (SlotNotFound 1, onePlan) \<and>
   swap 1 0 True onePlan = Inl (SlotNotFound 1, onePlan)"
proof -
  have slots: "has 0 onePlan" "\<not> has 1 onePlan"
    by (simp_all add: has_def onePlan_eq array_get_def)
  with swap_with_empty_slot_fails_unchanged [of 0 onePlan 1 True]
    swap_with_empty_slot_fails_unchanged [of 1 onePlan 0 True]
  show ?thesis
    by simp
qed

text \<open>
  Claim C8. For every index \<open>a\<close> whose slot is occupied: the assertion of
  \<open>swap(a, a)\<close> passes, the call then throws \<open>SlotNotFound\<close> from its second
  \<open>delete\<close>, and the state left behind has slot \<open>a\<close> empty; nothing is published.
\<close>

theorem swap_same_index_loses_plan:
  "has a s \<Longrightarrow>
   assertFlightPlanExists a s = Inr () \<and>
   swap a a n s = Inl (SlotNotFound a, s\<lparr>plans := array_set (plans s) a None\<rparr>) \<and>
   \<not> has a (state_of (swap a a n s)) \<and>
   published (state_of (swap a a n s)) = published s"
  by (auto simp: has_def swap_same assert_exists_simps array_get_array_set)

theorem swap_same_index_loses_plan_witness:
  "has 0 onePlan \<and>
   swap 0 0 True onePlan = Inl (SlotNotFound 0, onePlan\<lparr>plans := [None]\<rparr>) \<and>
   \<not> has 0 (state_of (swap 0 0 True onePlan))"
proof -
  have occupied: "has 0 onePlan"
    by (simp add: has_def onePlan_slots)
  have "array_set (plans onePlan) 0 None = [None]"
    by (simp add: onePlan_eq array_set_def)
  with occupied swap_same_index_loses_plan [of 0 onePlan True] show ?thesis
    by (simp add: has_def array_get_def)
qed

subsection \<open>The subscription handlers\<close>

text \<open>
  Claim C2, as amended. The handlers of \<open>create\<close>, \<open>delete\<close>,
  \<open>copy\<close> and \<open>swap\<close> call the method with no \<open>try\<close> around it, so with the
  flag lowered a replay that fails is not swallowed: the handler ends by throwing the
  method's error. That is \<open>SlotAlreadyOccupied\<close> for \<open>create\<close> on an occupied slot
  and \<open>SlotNotFound\<close> for \<open>delete\<close> on an empty slot, \<open>copy\<close> from an empty
  slot and \<open>swap\<close> with an empty slot, each leaving the state as it was, and
  \<open>SlotNotFound\<close> for \<open>swap(i, i)\<close> on an occupied slot, which leaves slot
  \<open>i\<close> empty. The \<open>deleteAll\<close> handler never throws.
\<close>

theorem replay_failure_propagates:
  "\<not> ignoreSync s \<Longrightarrow>
   (has i s \<longrightarrow> handle (Create i) s = Inl (SlotAlreadyOccupied i, s)) \<and>
   (\<not> has i s \<longrightarrow> handle (Delete i) s = Inl (SlotNotFound i, s)) \<and>
   (\<not> has i s \<longrightarrow> handle (Copy i j) s = Inl (SlotNotFound i, s)) \<and>
   (\<not> has i s \<longrightarrow> handle (Swap i j) s = Inl (SlotNotFound i, s)) \<and>
   (has i s \<and> \<not> has j s \<longrightarrow> handle (Swap i j) s = Inl (SlotNotFound j, s)) \<and>
   (has i s \<longrightarrow>
      handle (Swap i i) s = Inl (SlotNotFound i, s\<lparr>plans := array_set (plans s) i None\<rparr>)) \<and>
   handle DeleteAll s = Inr (s\<lparr>plans := []\<rparr>)"
  by (auto simp: has_def create_occupied delete_empty copy_empty swap_first_empty
      swap_second_empty swap_same deleteAll.simps)

theorem replay_failure_propagates_witness:
  "\<not> ignoreSync onePlan \<and> has 0 onePlan \<and> \<not> has 1 onePlan \<and>
   handle (Create 0) onePlan = Inl (SlotAlreadyOccupied 0, onePlan) \<and>
   handle (Delete 1) onePlan = Inl (SlotNotFound 1, onePlan) \<and>
   handle (Copy 1 0) onePlan = Inl (SlotNotFound 1, onePlan) \<and>
   handle (Swap 1 0) onePlan = Inl (SlotNotFound 1, onePlan) \<and>
   handle (Swap 0 1) onePlan = Inl (SlotNotFound 1, onePlan) \<and>
   handle (Swap 0 0) onePlan = Inl (SlotNotFound 0, onePlan\<lparr>plans := [None]\<rparr>)"
proof -
  have slots: "has 0 onePlan" "\<not> has 1 onePlan"
    by (simp_all add: has_def onePlan_eq array_get_def)
  have "array_set (plans onePlan) 0 None = [None]"
    by (simp add: onePlan_eq array_set_def)
  with slots onePlan_slots(3) replay_failure_propagates [of onePlan 0 1]
    replay_failure_propagates [of onePlan 1 0]
  show ?thesis
    by simp
qed

text \<open>
  Claim C2 as written has the handler return normally. A \<open>delete\<close> event for the
  empty slot 0 of a new unit, and a \<open>create\<close> event for the occupied slot 0 of
  \<open>onePlan\<close>, both end in a throw.
\<close>

theorem replay_failure_counterexample:
  "\<not> ignoreSync (FlightPlanManager 2 False) \<and>
   handle (Delete 0) (FlightPlanManager 2 False) = Inl (SlotNotFound 0, FlightPlanManager 2 False) \<and>
   \<not> ignoreSync onePlan \<and>
   handle (Create 0) onePlan = Inl (SlotAlreadyOccupied 0, onePlan)"
  by (simp add: onePlan_eq eval_defs)

text \<open>
  Six of the seven handlers test \<open>ignoreSync\<close> first and do nothing while it is
  raised. So inside \<open>sendEvent\<close>, where the unit's own handler runs on the event being
  published, an event of their topics is logged and changes nothing else.
\<close>

lemma guarded_handlers_discard:
  "ignoreSync s \<Longrightarrow> (\<forall>r. ev \<noteq> SyncResponse r) \<Longrightarrow> handle ev s = Inr s"
  by (cases ev) simp_all

lemma own_broadcast_discarded:
  "(\<forall>r. ev \<noteq> SyncResponse r) \<Longrightarrow>
   pub ev (s\<lparr>ignoreSync := True\<rparr>) =
     s\<lparr>ignoreSync := True, published := published s @ [ev]\<rparr>"
  by (cases ev) (simp_all add: pub.simps)

lemma awaitingSnapshot_in_timer:
  "timerFires (FlightPlanManager 2 False) = awaitingSnapshot\<lparr>ignoreSync := False\<rparr>"
  by (simp add: awaitingSnapshot_def timerFires_def FlightPlanManager_def sendEvent.simps Let_def)

text \<open>
  Claim C1 says that every handler, the one of \<open>syncResponse\<close> included, discards the
  event while the flag is raised. The \<open>syncResponse\<close> handler has no such test: on
  \<open>awaitingSnapshot\<close>, where the flag is raised and the table is empty, a response
  listing slot 0 is installed.
\<close>

theorem syncResponse_ignores_flag:
  "ignoreSync awaitingSnapshot \<and> plans awaitingSnapshot = [] \<and>
   handle (SyncResponse [(0, serialize (FlightPlan_empty 0))]) awaitingSnapshot =
     Inr (awaitingSnapshot\<lparr>plans := [Some (FlightPlan_empty 0)]\<rparr>)"
  by (simp add: awaitingSnapshot_def eval_defs)

subsection \<open>Tagging of the slots\<close>

text \<open>
  Every slot read through \<open>array_get\<close> agrees with its tag exactly when
  \<open>slots_tagged\<close> holds.
\<close>

lemma slots_tagged_iff:
  "slots_tagged s \<longleftrightarrow> (\<forall>i p. array_get (plans s) i = Some p \<longrightarrow> index p = i)"
proof
  assume tagged: "slots_tagged s"
  show "\<forall>i p. array_get (plans s) i = Some p \<longrightarrow> index p = i"
  proof (intro allI impI)
    fix i p
    assume "array_get (plans s) i = Some p"
    then have "(i, Some p) \<in> set (enumerate 0 (plans s))"
      by (simp add: array_get_def in_set_enumerate_eq split: if_splits)
    with tagged show "index p = i"
      by (auto simp: slots_tagged_def list_all_iff)
  qed
next
  assume r: "\<forall>i p. array_get (plans s) i = Some p \<longrightarrow> index p = i"
  have "case x of (i, None) \<Rightarrow> True | (i, Some p) \<Rightarrow> index p = i"
    if "x \<in> set (enumerate 0 (plans s))" for x
  proof (cases x)
    case (Pair i v)
    with that have "i < length (plans s)" "plans s ! i = v"
      by (simp_all add: in_set_enumerate_eq)
    then have "array_get (plans s) i = v"
      by (simp add: array_get_def)
    with r Pair show ?thesis
      by (cases v) simp_all
  qed
  then show "slots_tagged s"
    by (simp add: slots_tagged_def list_all_iff)
qed

text \<open>
  \<open>create\<close>, \<open>delete\<close>, \<open>deleteAll\<close>, \<open>copy\<close> and the installation of
  a snapshot keep the table tagged, whether they return or throw.
\<close>

lemma create_keeps_tags:
  "slots_tagged s \<Longrightarrow> slots_tagged (state_of (create i n s))"
  by (cases "array_get (plans s) i")
    (auto simp: slots_tagged_iff create_empty create_occupied sendEvent_fields
      array_get_array_set FlightPlan_empty_def)

lemma delete_keeps_tags:
  "slots_tagged s \<Longrightarrow> slots_tagged (state_of (delete i n s))"
  by (cases "array_get (plans s) i")
    (auto simp: slots_tagged_iff delete_empty delete_occupied sendEvent_fields
      array_get_array_set)

lemma deleteAll_keeps_tags: "slots_tagged (state_of (deleteAll n s))"
  by (simp add: slots_tagged_def deleteAll.simps Let_def sendEvent_fields)

lemma copy_keeps_tags:
  "slots_tagged s \<Longrightarrow> slots_tagged (state_of (copy a b n s))"
  by (cases "array_get (plans s) a")
    (auto simp: slots_tagged_iff copy_empty copy_occupied sendEvent_fields
      array_get_array_set incrementVersion_def clone_def)

lemma install_keeps_tags:
  "slots_tagged s \<Longrightarrow> slots_tagged (install r s)"
proof (induction r s rule: install.induct)
  case (1 s)
  then show ?case by simp
next
  case (2 intIndex serialisedPlan r s)
  from "2.prems"
  have "slots_tagged (set_plan intIndex (Some (fromSerializedFlightPlan intIndex serialisedPlan)) s)"
    by (auto simp: slots_tagged_iff set_plan_def array_get_array_set fromSerializedFlightPlan_def)
  then show ?case
    by (simp add: "2.IH")
qed

text \<open>
  \<open>swap\<close> stores the two captured plans as they are: on a tagged table, a swap of two
  distinct occupied slots returns with each plan carrying the index of the slot it left.
\<close>

lemma swap_breaks_tags:
  assumes "slots_tagged s" "has a s" "has b s" "a \<noteq> b"
  shows "\<exists>s' p q. swap a b n s = Inr s' \<and> array_get (plans s') a = Some q \<and> index q = b \<and>
           array_get (plans s') b = Some p \<and> index p = a \<and> \<not> slots_tagged s'"
proof -
  from assms(2,3) obtain p q where
    pq: "array_get (plans s) a = Some p" "array_get (plans s) b = Some q"
    by (auto simp: has_def)
  with assms(1) have tags: "index p = a" "index q = b"
    by (simp_all add: slots_tagged_iff)
  let ?pl = "array_set (array_set (array_set (array_set (plans s) a None) b None) a (Some q)) b (Some p)"
  let ?s' = "if n then sendEvent (Swap a b) (s\<lparr>plans := ?pl\<rparr>) else s\<lparr>plans := ?pl\<rparr>"
  have sw: "swap a b n s = Inr ?s'"
    using pq assms(4) by (simp add: swap_both)
  have slots: "array_get (plans ?s') a = Some q" "array_get (plans ?s') b = Some p"
    using assms(4) by (simp_all add: sendEvent_fields array_get_array_set)
  with tags assms(4) have "\<not> slots_tagged ?s'"
    unfolding slots_tagged_iff by metis
  with sw slots tags show ?thesis
    by blast
qed

text \<open>
  Claim C3 says that after \<open>swap(a, b)\<close> both plans carry their new indices. On
  \<open>twoPlans\<close>, a tagged table, \<open>swap(0, 1)\<close> returns with the plan tagged 1 in slot 0
  and the plan tagged 0 in slot 1, and the snapshot the \<open>syncRequest\<close> handler would then
  send lists under key 0 the plan of version 0, which is the one in slot 1.
\<close>

theorem swap_keeps_old_tags:
  "slots_tagged twoPlans \<and>
   swap 0 1 True twoPlans =
     Inr (twoPlans\<lparr>plans := [Some \<lparr>index = 1, version = 1, legs = []\<rparr>,
                              Some \<lparr>index = 0, version = 0, legs = []\<rparr>],
                   published := [Create 0, Copy 0 1, Swap 0 1]\<rparr>) \<and>
   \<not> slots_tagged (state_of (swap 0 1 True twoPlans)) \<and>
   plansRecord (plans (state_of (swap 0 1 True twoPlans))) [] =
     [(0, \<lparr>s_version = 0, s_legs = []\<rparr>), (1, \<lparr>s_version = 1, s_legs = []\<rparr>)]"
  by (simp add: twoPlans_eq eval_defs slots_tagged_def enumerate_eq_zip)

text \<open>
  The unit's own \<open>syncResponse\<close>, handed back to it inside \<open>sendEvent\<close>, is
  installed as well: after the swap above, answering a \<open>syncRequest\<close> puts the two
  plans back into the slots they had before the swap.
\<close>

lemma own_response_echo_undoes_swap:
  "plans (state_of (swap 0 1 True twoPlans)) \<noteq> plans twoPlans \<and>
   plans (state_of (handle SyncRequest (state_of (swap 0 1 True twoPlans)))) = plans twoPlans \<and>
   plans (run [CallCreate 0 True, CallCopy 0 1 True, CallSwap 0 1 True, Deliver SyncRequest]
            (FlightPlanManager 1 True)) =
     [Some \<lparr>index = 0, version = 0, legs = []\<rparr>, Some \<lparr>index = 1, version = 1, legs = []\<rparr>]"
  by (simp add: twoPlans_eq eval_defs)

subsection \<open>The snapshot request at start-up\<close>

text \<open>
  No method and no handler touches the timers or publishes a \<open>syncRequest\<close>, and
  each leaves the flag lowered if it found it so; the timer's callback publishes the event
  it was registered with and is removed.
\<close>

lemma requests_sent_plans [simp]: "requests_sent (s\<lparr>plans := pl\<rparr>) = requests_sent s"
  by (simp add: requests_sent_def)

lemma requests_sent_sendEvent:
  "requests_sent (sendEvent ev s) = requests_sent s + (if ev = SyncRequest then 1 else 0)"
  by (simp add: requests_sent_def sendEvent_fields)

lemma create_keeps:
  "timers (state_of (create i n s)) = timers s \<and>
   requests_sent (state_of (create i n s)) = requests_sent s \<and>
   (\<not> ignoreSync s \<longrightarrow> \<not> ignoreSync (state_of (create i n s)))"
  by (cases "array_get (plans s) i")
    (simp_all add: create_empty create_occupied sendEvent_fields requests_sent_sendEvent)

lemma delete_keeps:
  "timers (state_of (delete i n s)) = timers s \<and>
   requests_sent (state_of (delete i n s)) = requests_sent s \<and>
   (\<not> ignoreSync s \<longrightarrow> \<not> ignoreSync (state_of (delete i n s)))"
  by (cases "array_get (plans s) i")
    (simp_all add: delete_empty delete_occupied sendEvent_fields requests_sent_sendEvent)

lemma deleteAll_keeps:
  "timers (state_of (deleteAll n s)) = timers s \<and>
   requests_sent (state_of (deleteAll n s)) = requests_sent s \<and>
   (\<not> ignoreSync s \<longrightarrow> \<not> ignoreSync (state_of (deleteAll n s)))"
  by (simp add: deleteAll.simps Let_def sendEvent_fields requests_sent_sendEvent)

lemma copy_keeps:
  "timers (state_of (copy a b n s)) = timers s \<and>
   requests_sent (state_of (copy a b n s)) = requests_sent s \<and>
   (\<not> ignoreSync s \<longrightarrow> \<not> ignoreSync (state_of (copy a b n s)))"
  by (cases "array_get (plans s) a")
    (simp_all add: copy_empty copy_occupied sendEvent_fields requests_sent_sendEvent)

lemma swap_keeps:
  "timers (state_of (swap a b n s)) = timers s \<and>
   requests_sent (state_of (swap a b n s)) = requests_sent s \<and>
   (\<not> ignoreSync s \<longrightarrow> \<not> ignoreSync (state_of (swap a b n s)))"
  by (rule swap_cases [where s = s and a = a and b = b])
    (simp_all add: swap_first_empty swap_second_empty swap_same swap_both sendEvent_fields
      requests_sent_sendEvent)

lemma requests_sent_install: "requests_sent (install r s) = requests_sent s"
  by (simp add: requests_sent_def install_fields)

lemma handle_keeps:
  "timers (state_of (handle ev s)) = timers s \<and>
   requests_sent (state_of (handle ev s)) = requests_sent s \<and>
   (\<not> ignoreSync s \<longrightarrow> \<not> ignoreSync (state_of (handle ev s)))"
  by (cases ev)
    (simp_all add: create_keeps delete_keeps deleteAll_keeps copy_keeps swap_keeps install_fields
      sendEvent_fields requests_sent_sendEvent requests_sent_install)

lemma timerFires_keeps:
  "requests_pending (timerFires s) + requests_sent (timerFires s)
     = requests_pending s + requests_sent s \<and>
   length (timers (timerFires s)) \<le> length (timers s) \<and>
   (\<not> ignoreSync s \<longrightarrow> \<not> ignoreSync (timerFires s))"
  by (cases "timers s")
    (auto simp: timerFires_def sendEvent_fields requests_sent_def requests_pending_def)

lemma step_keeps:
  "requests_pending (step a s) + requests_sent (step a s)
     = requests_pending s + requests_sent s \<and>
   length (timers (step a s)) \<le> length (timers s) \<and>
   (\<not> ignoreSync s \<longrightarrow> \<not> ignoreSync (step a s))"
proof (cases "a = TimerFires")
  case True
  then show ?thesis
    by (simp add: timerFires_keeps)
next
  case False
  then show ?thesis
    by (cases a)
      (simp_all add: create_keeps delete_keeps deleteAll_keeps copy_keeps swap_keeps
        handle_keeps requests_pending_def)
qed

lemma run_requests:
  "requests_pending (run acts s) + requests_sent (run acts s) = requests_pending s + requests_sent s"
  by (induction acts arbitrary: s) (simp_all add: step_keeps)

lemma run_timers: "length (timers (run acts s)) \<le> length (timers s)"
proof (induction acts arbitrary: s)
  case Nil
  show ?case by simp
next
  case (Cons a acts)
  have "length (timers (run acts (step a s))) \<le> length (timers (step a s))"
    by (rule Cons.IH)
  also have "\<dots> \<le> length (timers s)"
    by (simp add: step_keeps)
  finally show ?case by simp
qed

lemma run_flag: "\<not> ignoreSync s \<Longrightarrow> \<not> ignoreSync (run acts s)"
  by (induction acts arbitrary: s) (simp_all add: step_keeps)

lemma step_not_timer:
  "a \<noteq> TimerFires \<Longrightarrow>
   timers (step a s) = timers s \<and> requests_sent (step a s) = requests_sent s"
  by (cases a)
    (simp_all add: create_keeps delete_keeps deleteAll_keeps copy_keeps swap_keeps handle_keeps)

lemma timerFires_pending:
  "timers s = [(d, SyncRequest)] \<Longrightarrow>
   timers (timerFires s) = [] \<and> published (timerFires s) = published s @ [SyncRequest]"
  by (simp add: timerFires_def sendEvent_fields)

lemma timerFires_none: "timers s = [] \<Longrightarrow> timerFires s = s"
  by (simp add: timerFires_def)

lemma step_pending_or_sent:
  assumes "timers s = [(d, SyncRequest)] \<and> requests_sent s = 0 \<or>
           timers s = [] \<and> requests_sent s = 1"
  shows "timers (step a s) = [(d, SyncRequest)] \<and> requests_sent (step a s) = 0 \<or>
         timers (step a s) = [] \<and> requests_sent (step a s) = 1"
proof (cases "a = TimerFires")
  case False
  with assms show ?thesis
    by (simp add: step_not_timer)
next
  case True
  from assms show ?thesis
  proof
    assume "timers s = [(d, SyncRequest)] \<and> requests_sent s = 0"
    with True show ?thesis
      by (simp add: timerFires_pending requests_sent_def)
  next
    assume "timers s = [] \<and> requests_sent s = 1"
    with True show ?thesis
      by (simp add: timerFires_none)
  qed
qed

lemma run_pending_or_sent:
  "timers s = [(d, SyncRequest)] \<and> requests_sent s = 0 \<or>
   timers s = [] \<and> requests_sent s = 1 \<Longrightarrow>
   timers (run acts s) = [(d, SyncRequest)] \<and> requests_sent (run acts s) = 0 \<or>
   timers (run acts s) = [] \<and> requests_sent (run acts s) = 1"
proof (induction acts arbitrary: s)
  case Nil
  then show ?case by simp
next
  case (Cons a acts)
  from Cons.prems have "timers (step a s) = [(d, SyncRequest)] \<and> requests_sent (step a s) = 0 \<or>
      timers (step a s) = [] \<and> requests_sent (step a s) = 1"
    by (rule step_pending_or_sent)
  then show ?case
    using Cons.IH [of "step a s"] by simp
qed

lemma run_append: "run (xs @ ys) s = run ys (run xs s)"
  by (induction xs arbitrary: s) simp_all

text \<open>
  Claim C7. The constructor of a unit that is not master registers exactly one timer, of
  5000 ms, whose callback publishes \<open>syncRequest\<close>; when it fires the request is
  published and no timer is left. After any sequence of method calls, deliveries and timer
  firings, the requests still pending and the requests published add up to one: either the
  timer is still registered and no request has been published, or it is gone and exactly
  one has. Whenever the timer fires after such a sequence it publishes the request if none
  has been published, and nothing otherwise; from the first firing on, whatever follows,
  exactly one request has been published and no timer is left, so there is no second
  request. A master starts with no timer and after any such sequence has no timer and has
  published no \<open>syncRequest\<close>; a \<open>syncRequest\<close> delivered to it is answered with a
  \<open>syncResponse\<close> built from its table.
\<close>

theorem bootstrap_request_scheduled_once:
  "timers (FlightPlanManager c False) = [(5000, SyncRequest)] \<and>
   published (timerFires (FlightPlanManager c False)) = [SyncRequest] \<and>
   timers (timerFires (FlightPlanManager c False)) = [] \<and>
   requests_pending (run acts (FlightPlanManager c False))
     + requests_sent (run acts (FlightPlanManager c False)) = 1 \<and>
   length (timers (run acts (FlightPlanManager c False))) \<le> 1 \<and>
   timers (FlightPlanManager c True) = [] \<and>
   timers (run acts (FlightPlanManager c True)) = [] \<and>
   requests_sent (run acts (FlightPlanManager c True)) = 0 \<and>
   published (step (Deliver SyncRequest) (run acts (FlightPlanManager c True))) =
     published (run acts (FlightPlanManager c True))
       @ [SyncResponse (plansRecord (plans (run acts (FlightPlanManager c True))) [])] \<and>
   (timers (run acts (FlightPlanManager c False)) = [(5000, SyncRequest)] \<and>
      requests_sent (run acts (FlightPlanManager c False)) = 0 \<or>
    timers (run acts (FlightPlanManager c False)) = [] \<and>
      requests_sent (run acts (FlightPlanManager c False)) = 1) \<and>
   published (run (acts @ [TimerFires]) (FlightPlanManager c False)) =
     published (run acts (FlightPlanManager c False))
       @ (if requests_sent (run acts (FlightPlanManager c False)) = 0 then [SyncRequest] else []) \<and>
   requests_sent (run (acts @ TimerFires # later) (FlightPlanManager c False)) = 1 \<and>
   timers (run (acts @ TimerFires # later) (FlightPlanManager c False)) = []"
proof -
  let ?f = "FlightPlanManager c False" and ?m = "FlightPlanManager c True"
  have init: "timers ?f = [(5000, SyncRequest)]" "timers ?m = []"
    "published ?f = []" "published ?m = []" "\<not> ignoreSync ?m"
    by (simp_all add: FlightPlanManager_def)
  have fire: "published (timerFires ?f) = [SyncRequest]" "timers (timerFires ?f) = []"
    by (simp_all add: timerFires_def FlightPlanManager_def sendEvent_fields)
  have "requests_pending ?f + requests_sent ?f = 1"
    by (simp add: requests_pending_def requests_sent_def init)
  then have once: "requests_pending (run acts ?f) + requests_sent (run acts ?f) = 1"
    by (simp add: run_requests)
  have len: "length (timers (run acts ?f)) \<le> 1"
    using run_timers [of acts ?f] by (simp add: init)
  have none: "timers (run acts ?m) = []"
    using run_timers [of acts ?m] by (simp add: init)
  have "requests_pending ?m + requests_sent ?m = 0"
    by (simp add: requests_pending_def requests_sent_def init)
  then have "requests_pending (run acts ?m) + requests_sent (run acts ?m) = 0"
    by (simp add: run_requests)
  then have never: "requests_sent (run acts ?m) = 0"
    by simp
  have "\<not> ignoreSync (run acts ?m)"
    using init(5) by (rule run_flag)
  then have answer: "published (step (Deliver SyncRequest) (run acts ?m)) =
      published (run acts ?m) @ [SyncResponse (plansRecord (plans (run acts ?m)) [])]"
    by (simp add: sendEvent_fields)
  have start: "timers ?f = [(5000, SyncRequest)] \<and> requests_sent ?f = 0 \<or>
      timers ?f = [] \<and> requests_sent ?f = 1"
    by (simp add: init requests_sent_def)
  then have either: "timers (run acts ?f) = [(5000, SyncRequest)] \<and> requests_sent (run acts ?f) = 0 \<or>
      timers (run acts ?f) = [] \<and> requests_sent (run acts ?f) = 1"
    by (rule run_pending_or_sent)
  then have fired: "published (timerFires (run acts ?f)) =
        published (run acts ?f) @ (if requests_sent (run acts ?f) = 0 then [SyncRequest] else []) \<and>
      timers (timerFires (run acts ?f)) = [] \<and> requests_sent (timerFires (run acts ?f)) = 1"
    by (auto simp: timerFires_pending timerFires_none requests_sent_def)
  then have "timers (timerFires (run acts ?f)) = [(5000, SyncRequest)] \<and>
        requests_sent (timerFires (run acts ?f)) = 0 \<or>
      timers (timerFires (run acts ?f)) = [] \<and> requests_sent (timerFires (run acts ?f)) = 1"
    by simp
  then have "timers (run later (timerFires (run acts ?f))) = [(5000, SyncRequest)] \<and>
        requests_sent (run later (timerFires (run acts ?f))) = 0 \<or>
      timers (run later (timerFires (run acts ?f))) = [] \<and>
        requests_sent (run later (timerFires (run acts ?f))) = 1"
    by (rule run_pending_or_sent)
  moreover have "length (timers (run later (timerFires (run acts ?f)))) \<le> 0"
    using run_timers [of later "timerFires (run acts ?f)"] fired by simp
  ultimately have after: "requests_sent (run later (timerFires (run acts ?f))) = 1 \<and>
      timers (run later (timerFires (run acts ?f))) = []"
    by auto
  from init(1,2) fire once len none never answer either fired after show ?thesis
    by (simp add: run_append)
qed

theorem bootstrap_request_scheduled_once_witness:
  "published (run ([CallCreate 0 True, Deliver SyncRequest] @ [TimerFires]) (FlightPlanManager 2 False)) =
     [Create 0, SyncResponse [(0, \<lparr>s_version = 0, s_legs = []\<rparr>)], SyncRequest] \<and>
   requests_sent (run ([CallCreate 0 True, Deliver SyncRequest] @ TimerFires # [TimerFires, CallDelete 0 True])
     (FlightPlanManager 2 False)) = 1 \<and>
   requests_sent (run [CallCreate 0 True, Deliver SyncRequest, TimerFires] (FlightPlanManager 1 True)) = 0"
proof -
  let ?acts = "[CallCreate 0 True, Deliver SyncRequest]"
  have "published (run ?acts (FlightPlanManager 2 False)) =
      [Create 0, SyncResponse [(0, \<lparr>s_version = 0, s_legs = []\<rparr>)]]"
    by (simp add: eval_defs)
  moreover have "requests_sent (run ?acts (FlightPlanManager 2 False)) = 0"
    by (simp add: requests_sent_def eval_defs)
  ultimately show ?thesis
    using bootstrap_request_scheduled_once [of 2 ?acts "[TimerFires, CallDelete 0 True]"]
      bootstrap_request_scheduled_once [of 1 "[CallCreate 0 True, Deliver SyncRequest, TimerFires]"]
    by simp
qed

end
